theory Spec2Isabelle
  imports Main "HOL-Library.Sublist"
begin

section \<open>Python string operations used by the validator\<close>

text \<open>
  A Python \<open>str\<close> is modelled as a \<open>string\<close>: a list of characters, each a code point
  below 256. The test \<open>str.isspace\<close> holds, in that range, for the code points
  9 to 13, 28 to 32, 133 and 160; \<open>str.strip()\<close> without argument removes the longest
  run of such characters at both ends.
\<close>

definition whitespace_chars :: "char list" where
  "whitespace_chars =
     [CHR 0x09, CHR 0x0A, CHR 0x0B, CHR 0x0C, CHR 0x0D,
      CHR 0x1C, CHR 0x1D, CHR 0x1E, CHR 0x1F, CHR 0x20, CHR 0x85, CHR 0xA0]"

definition isspace :: "char \<Rightarrow> bool" where
  "isspace c = (c \<in> set whitespace_chars)"

definition str_strip :: "string \<Rightarrow> string" where
  "str_strip s = rev (dropWhile isspace (rev (dropWhile isspace s)))"

text \<open>\<open>s.startswith(p)\<close> and \<open>s.endswith(p)\<close>.\<close>

definition str_startswith :: "string \<Rightarrow> string \<Rightarrow> bool" where
  "str_startswith s p = (take (length p) s = p)"

definition str_endswith :: "string \<Rightarrow> string \<Rightarrow> bool" where
  "str_endswith s p = (length p \<le> length s \<and> drop (length s - length p) s = p)"

text \<open>\<open>p in s\<close>: the string \<open>p\<close> occurs in \<open>s\<close> as a contiguous substring.\<close>

fun str_contains :: "string \<Rightarrow> string \<Rightarrow> bool" where
  "str_contains p [] = (p = [])"
| "str_contains p (c # cs) = (str_startswith (c # cs) p \<or> str_contains p cs)"

text \<open>
  \<open>s.split(sep)\<close> for a one-character separator: the pieces between the occurrences of
  \<open>sep\<close>, empty pieces included; the empty string gives one empty piece. The second
  argument of \<open>split_from\<close> is the piece being read.
\<close>

fun split_from :: "char \<Rightarrow> string \<Rightarrow> string \<Rightarrow> string list" where
  "split_from sep cur [] = [cur]"
| "split_from sep cur (c # cs) =
     (if c = sep then cur # split_from sep [] cs else split_from sep (cur @ [c]) cs)"

definition str_split :: "string \<Rightarrow> char \<Rightarrow> string list" where
  "str_split s sep = split_from sep [] s"

text \<open>\<open>''.join(xs)\<close> is \<open>concat xs\<close>; \<open>xs[a:b]\<close> for \<open>0 \<le> a\<close> and \<open>0 \<le> b\<close>:\<close>

definition py_slice :: "'a list \<Rightarrow> nat \<Rightarrow> nat \<Rightarrow> 'a list" where
  "py_slice xs a b = drop a (take b xs)"

text \<open>\<open>str(n)\<close> for a non-negative integer: its decimal digits, most significant first.\<close>

definition digit_char :: "nat \<Rightarrow> char" where
  "digit_char d = char_of (48 + d)"

fun str_nat :: "nat \<Rightarrow> string" where
  "str_nat n = (if n < 10 then [digit_char n] else str_nat (n div 10) @ [digit_char (n mod 10)])"

declare str_nat.simps [simp del]

section \<open>The validator\<close>

text \<open>The three messages, as the f-strings of \<open>validate_sql_syntax\<close> build them.\<close>

definition constraint_error :: "nat \<Rightarrow> string" where
  "constraint_error i =
     ''Line '' @ str_nat i @ '': '' @ [CHR 0x27] @ ''ADD CONSTRAINT IF NOT EXISTS'' @ [CHR 0x27]
       @ '' is not valid PostgreSQL syntax''"

definition do_block_error :: "nat \<Rightarrow> string" where
  "do_block_error i = ''Line '' @ str_nat i @ '': DO block not properly closed''"

definition function_warning :: "nat \<Rightarrow> string" where
  "function_warning i = ''Line '' @ str_nat i @ '': Function may be missing proper delimiters''"

text \<open>
  The \<open>while j < len(lines)\<close> loop of the DO block check, started at \<open>j = i\<close> with an empty
  \<open>block_content\<close>. The result says how the loop was left: \<open>True\<close> by \<open>break\<close>, \<open>False\<close>
  because the loop condition failed, in which case the \<open>else\<close> clause of the loop runs.
  A loop that never ends has the value \<open>None\<close>.
\<close>

partial_function (option) do_block_while ::
  "string list \<Rightarrow> nat \<Rightarrow> string list \<Rightarrow> (bool \<times> string list) option" where
  "do_block_while lines j block_content =
     (if j < length lines then
        (let block_content' = block_content @ [lines ! (j - 1)] in
         if str_endswith (str_strip (lines ! (j - 1))) ''$$;'' then Some (True, block_content')
         else do_block_while lines (j + 1) block_content')
      else Some (False, block_content))"

declare do_block_while.simps [code]

text \<open>
  The body of the \<open>for i, line in enumerate(lines, 1)\<close> loop, on the pair
  \<open>(errors, warnings)\<close>.
\<close>

definition loop_body ::
  "string list \<Rightarrow> nat \<Rightarrow> string \<Rightarrow> string list \<times> string list
     \<Rightarrow> (string list \<times> string list) option" where
  "loop_body lines i raw st =
     (let errors = fst st; warnings = snd st; line = str_strip raw in
      if line = [] \<or> str_startswith line ''--'' then Some (errors, warnings)
      else
        let errors1 =
              (if str_contains ''ADD CONSTRAINT IF NOT EXISTS'' line
               then errors @ [constraint_error i] else errors)
        in
        case (if str_startswith line ''DO $$'' \<and> \<not> str_endswith line ''$$;''
              then (case do_block_while lines i [] of
                      None \<Rightarrow> None
                    | Some (broke, block_content) \<Rightarrow>
                        Some (if broke then errors1 else errors1 @ [do_block_error i]))
              else Some errors1) of
          None \<Rightarrow> None
        | Some errors2 \<Rightarrow>
            Some (errors2,
                  if str_contains ''CREATE OR REPLACE FUNCTION'' line
                  then (if \<not> str_contains ''$$'' (concat (py_slice lines (i - 1) (i + 10)))
                        then warnings @ [function_warning i] else warnings)
                  else warnings))"

fun for_lines ::
  "string list \<Rightarrow> nat \<Rightarrow> string list \<Rightarrow> string list \<times> string list
     \<Rightarrow> (string list \<times> string list) option" where
  "for_lines lines i [] st = Some st"
| "for_lines lines i (raw # rest) st =
     (case loop_body lines i raw st of
        None \<Rightarrow> None
      | Some st' \<Rightarrow> for_lines lines (i + 1) rest st')"

definition validate_sql_syntax :: "string \<Rightarrow> (string list \<times> string list) option" where
  "validate_sql_syntax sql_content =
     (let lines = str_split sql_content (CHR 0x0A) in for_lines lines 1 lines ([], []))"

section \<open>The reporter\<close>

text \<open>
  What \<open>open\<close> and \<open>read\<close> give \<open>main\<close>: the text of the file, a \<open>FileNotFoundError\<close>, or
  another exception, which \<open>main\<close> does not catch.
\<close>

datatype read_result = Content string | FileNotFoundError | OtherException

text \<open>How \<open>main\<close> ends: it returns an integer, or an exception leaves it.\<close>

datatype outcome = Returned nat | Uncaught

text \<open>
  The glyphs of the report are outside the range of \<open>char\<close>; a printed line is given as
  the bytes of its UTF-8 encoding, which is the text itself for everything else that
  \<open>main\<close> prints.
\<close>

definition cross_mark :: string where
  "cross_mark = [CHR 0xE2, CHR 0x9D, CHR 0x8C]"

definition check_mark :: string where
  "check_mark = [CHR 0xE2, CHR 0x9C, CHR 0x85]"

definition warning_sign :: string where
  "warning_sign = [CHR 0xE2, CHR 0x9A, CHR 0xA0, CHR 0xEF, CHR 0xB8, CHR 0x8F]"

definition bar_chart :: string where
  "bar_chart = [CHR 0xF0, CHR 0x9F, CHR 0x93, CHR 0x8A]"

text \<open>The lines printed for a validation result, one entry for each call of \<open>print\<close>.\<close>

definition report :: "string \<Rightarrow> string list \<Rightarrow> string list \<Rightarrow> string list" where
  "report sql_content errors warnings =
     [''SQL Syntax Validation Results:'', replicate 40 (CHR ''='')]
     @ (if errors \<noteq> []
        then [cross_mark @ '' ERRORS FOUND ('' @ str_nat (length errors) @ ''):'']
             @ map (\<lambda>error. ''  '' @ error) errors
        else [check_mark @ '' No syntax errors found''])
     @ (if warnings \<noteq> []
        then [[CHR 0x0A] @ warning_sign @ '' WARNINGS ('' @ str_nat (length warnings) @ ''):'']
             @ map (\<lambda>warning. ''  '' @ warning) warnings
        else [check_mark @ '' No warnings''])
     @ [[CHR 0x0A] @ bar_chart @ '' File contains '' @ str_nat (length (str_split sql_content (CHR '';'')))
          @ '' SQL statements'',
        if errors = [] then check_mark @ '' Ready for deployment''
        else cross_mark @ '' Fix errors before deployment'']"

text \<open>
  \<open>main\<close>: the printed lines and how it ends. \<open>None\<close> stands for a validation that does
  not return.
\<close>

definition main :: "read_result \<Rightarrow> (string list \<times> outcome) option" where
  "main r =
     (case r of
        Content sql_content \<Rightarrow>
          (case validate_sql_syntax sql_content of
             None \<Rightarrow> None
           | Some (errors, warnings) \<Rightarrow>
               Some (report sql_content errors warnings,
                     Returned (if errors = [] then 0 else 1)))
      | FileNotFoundError \<Rightarrow> Some ([cross_mark @ '' SQL file not found''], Returned 1)
      | OtherException \<Rightarrow> Some ([], Uncaught))"

text \<open>
  \<open>sys.exit(main())\<close>: the exit status is the integer that \<open>main\<close> returns; the
  interpreter ends with status 1 on an exception that nothing catches.
\<close>

definition exit_status :: "outcome \<Rightarrow> nat" where
  "exit_status out = (case out of Returned n \<Rightarrow> n | Uncaught \<Rightarrow> 1)"

definition exit_code :: "read_result \<Rightarrow> nat option" where
  "exit_code r = map_option (\<lambda>(printed, out). exit_status out) (main r)"

section \<open>Vocabulary of the properties\<close>

text \<open>
  The findings that one iteration of the \<open>for\<close> loop adds for line \<open>i\<close> with raw text
  \<open>raw\<close>, written without the loop: the DO block error is added when no line with a
  number from \<open>i\<close> to \<open>len(lines) - 1\<close> ends, stripped, with the closing tag.
\<close>

definition line_errors :: "string list \<Rightarrow> nat \<Rightarrow> string \<Rightarrow> string list" where
  "line_errors lines i raw =
     (let line = str_strip raw in
      if line = [] \<or> str_startswith line ''--'' then []
      else (if str_contains ''ADD CONSTRAINT IF NOT EXISTS'' line then [constraint_error i] else [])
         @ (if str_startswith line ''DO $$'' \<and> \<not> str_endswith line ''$$;''
               \<and> \<not> (\<exists>k \<in> {i ..< length lines}. str_endswith (str_strip (lines ! (k - 1))) ''$$;'')
            then [do_block_error i] else []))"

definition line_warnings :: "string list \<Rightarrow> nat \<Rightarrow> string \<Rightarrow> string list" where
  "line_warnings lines i raw =
     (let line = str_strip raw in
      if line = [] \<or> str_startswith line ''--'' then []
      else if str_contains ''CREATE OR REPLACE FUNCTION'' line
              \<and> \<not> str_contains ''$$'' (concat (py_slice lines (i - 1) (i + 10)))
           then [function_warning i] else [])"

text \<open>All findings of a document with the given lines, in the order of the lines.\<close>

definition all_errors :: "string list \<Rightarrow> string list" where
  "all_errors lines = concat (map (\<lambda>(k, raw). line_errors lines k raw) (enumerate 1 lines))"

definition all_warnings :: "string list \<Rightarrow> string list" where
  "all_warnings lines = concat (map (\<lambda>(k, raw). line_warnings lines k raw) (enumerate 1 lines))"

text \<open>
  The line number embedded in a finding: the decimal number between the prefix
  \<open>Line\<close> and the first colon.
\<close>

definition digit_val :: "char \<Rightarrow> nat" where
  "digit_val c = of_char c - 48"

definition dec_value :: "string \<Rightarrow> nat" where
  "dec_value s = foldl (\<lambda>a c. 10 * a + digit_val c) 0 s"

definition line_number_of :: "string \<Rightarrow> nat" where
  "line_number_of finding = dec_value (takeWhile (\<lambda>c. c \<noteq> CHR '':'') (drop 5 finding))"

section \<open>Properties of the string operations\<close>

lemma str_startswith_prefix: "str_startswith s p \<longleftrightarrow> prefix p s"
proof
  assume "str_startswith s p"
  then have "take (length p) s = p" by (simp add: str_startswith_def)
  then show "prefix p s" by (metis take_is_prefix)
next
  assume "prefix p s"
  then obtain r where "s = p @ r" by (auto simp: prefix_def)
  then show "str_startswith s p" by (simp add: str_startswith_def)
qed

lemma str_endswith_suffix: "str_endswith s p \<longleftrightarrow> suffix p s"
proof
  assume "str_endswith s p"
  then have "drop (length s - length p) s = p" by (simp add: str_endswith_def)
  then show "suffix p s" by (metis suffix_drop)
next
  assume "suffix p s"
  then obtain r where "s = r @ p" by (auto simp: suffix_def)
  then show "str_endswith s p" by (simp add: str_endswith_def)
qed

lemma str_contains_sublist: "str_contains p s \<longleftrightarrow> sublist p s"
  by (induction s) (simp_all add: sublist_Cons_right str_startswith_prefix)

lemma str_strip_sublist: "sublist (str_strip s) s"
proof -
  have "suffix (dropWhile isspace (rev (dropWhile isspace s))) (rev (dropWhile isspace s))"
    by (rule suffix_dropWhile)
  then have "sublist (dropWhile isspace (rev (dropWhile isspace s))) (rev (dropWhile isspace s))"
    by (rule suffix_imp_sublist)
  then have "sublist (str_strip s) (dropWhile isspace s)"
    by (metis str_strip_def sublist_rev rev_rev_ident)
  moreover have "sublist (dropWhile isspace s) s"
    by (rule suffix_imp_sublist) (rule suffix_dropWhile)
  ultimately show ?thesis by (rule sublist_order.order.trans)
qed

lemma str_strip_decomp:
  "\<exists>a b. s = a @ str_strip s @ b \<and> (\<forall>c \<in> set a. isspace c) \<and> (\<forall>c \<in> set b. isspace c)"
proof -
  let ?a = "takeWhile isspace s"
  let ?m = "dropWhile isspace s"
  let ?b = "rev (takeWhile isspace (rev ?m))"
  have "?m = rev (dropWhile isspace (rev ?m)) @ rev (takeWhile isspace (rev ?m))"
    by (metis rev_append rev_rev_ident takeWhile_dropWhile_id)
  then have "?m = str_strip s @ ?b"
    by (simp add: str_strip_def)
  moreover have "s = ?a @ ?m" by simp
  ultimately have "s = ?a @ str_strip s @ ?b" by simp
  moreover have "\<forall>c \<in> set ?a. isspace c"
    by (auto dest: set_takeWhileD)
  moreover have "\<forall>c \<in> set ?b. isspace c"
    by (auto dest: set_takeWhileD)
  ultimately show ?thesis by blast
qed

lemma sublist_skip_left:
  assumes "p \<noteq> []" and "\<not> isspace (hd p)" and "\<forall>c \<in> set a. isspace c"
    and "sublist p (a @ s)"
  shows "sublist p s"
  using assms(3,4)
proof (induction a)
  case Nil
  then show ?case by simp
next
  case (Cons c a)
  from Cons.prems(2) have "prefix p (c # a @ s) \<or> sublist p (a @ s)"
    by (simp add: sublist_Cons_right)
  then show ?case
  proof
    assume "prefix p (c # a @ s)"
    with assms(1) have "hd p = c" by (cases p) auto
    with Cons.prems(1) assms(2) show ?thesis by simp
  next
    assume "sublist p (a @ s)"
    with Cons show ?thesis by simp
  qed
qed

lemma sublist_skip_right:
  assumes "p \<noteq> []" and "\<not> isspace (last p)" and "\<forall>c \<in> set b. isspace c"
    and "sublist p (s @ b)"
  shows "sublist p s"
proof -
  from assms(4) have "sublist (rev p) (rev b @ rev s)"
    by (metis sublist_rev rev_append)
  moreover from assms(1,2) have "rev p \<noteq> []" and "\<not> isspace (hd (rev p))"
    by (simp_all add: hd_rev)
  moreover from assms(3) have "\<forall>c \<in> set (rev b). isspace c" by simp
  ultimately have "sublist (rev p) (rev s)"
    using sublist_skip_left [of "rev p" "rev b" "rev s"] by blast
  then show ?thesis by simp
qed

lemma str_contains_strip:
  assumes "p \<noteq> []" and "\<not> isspace (hd p)" and "\<not> isspace (last p)"
  shows "str_contains p (str_strip s) \<longleftrightarrow> str_contains p s"
proof
  assume "str_contains p (str_strip s)"
  then have "sublist p (str_strip s)" by (simp add: str_contains_sublist)
  from this str_strip_sublist have "sublist p s" by (rule sublist_order.order.trans)
  then show "str_contains p s" by (simp add: str_contains_sublist)
next
  assume "str_contains p s"
  then have p: "sublist p s" by (simp add: str_contains_sublist)
  obtain a b where s: "s = a @ str_strip s @ b"
    and a: "\<forall>c \<in> set a. isspace c" and b: "\<forall>c \<in> set b. isspace c"
    using str_strip_decomp by blast
  from p s have "sublist p (a @ (str_strip s @ b))" by simp
  with assms(1,2) a have "sublist p (str_strip s @ b)" by (rule sublist_skip_left)
  with assms(1,3) b have "sublist p (str_strip s)" by (rule sublist_skip_right)
  then show "str_contains p (str_strip s)" by (simp add: str_contains_sublist)
qed

lemma patterns_in_raw_line:
  "str_contains ''ADD CONSTRAINT IF NOT EXISTS'' (str_strip raw)
     = str_contains ''ADD CONSTRAINT IF NOT EXISTS'' raw"
  "str_contains ''CREATE OR REPLACE FUNCTION'' (str_strip raw)
     = str_contains ''CREATE OR REPLACE FUNCTION'' raw"
  by (rule str_contains_strip; simp add: isspace_def whitespace_chars_def)+

lemma split_from_length: "length (split_from sep cur s) = Suc (count_list s sep)"
  by (induction s arbitrary: cur) simp_all

lemma str_split_length: "length (str_split s sep) = count_list s sep + 1"
  by (simp add: str_split_def split_from_length)

lemma split_from_join:
  "concat (map (\<lambda>l. l @ [sep]) (split_from sep cur s)) = cur @ s @ [sep]"
  by (induction s arbitrary: cur) simp_all

lemma str_split_join: "concat (map (\<lambda>l. l @ [sep]) (str_split s sep)) = s @ [sep]"
  by (simp add: str_split_def split_from_join)

lemma split_from_no_sep:
  "sep \<notin> set cur \<Longrightarrow> l \<in> set (split_from sep cur s) \<Longrightarrow> sep \<notin> set l"
proof (induction s arbitrary: cur)
  case Nil
  then show ?case by simp
next
  case (Cons c cs)
  show ?case
  proof (cases "c = sep")
    case True
    with Cons.prems have "l = cur \<or> l \<in> set (split_from sep [] cs)" by simp
    then show ?thesis
    proof
      assume "l = cur"
      with Cons.prems(1) show ?thesis by simp
    next
      assume "l \<in> set (split_from sep [] cs)"
      with Cons.IH [of "[]"] show ?thesis by simp
    qed
  next
    case False
    with Cons.prems have "sep \<notin> set (cur @ [c])" and "l \<in> set (split_from sep (cur @ [c]) cs)"
      by simp_all
    then show ?thesis by (rule Cons.IH)
  qed
qed

lemma str_split_no_sep: "l \<in> set (str_split s sep) \<Longrightarrow> sep \<notin> set l"
  using split_from_no_sep [of sep "[]" l s] by (simp add: str_split_def)

lemma split_from_sublist: "l \<in> set (split_from sep cur s) \<Longrightarrow> sublist l (cur @ s)"
proof (induction s arbitrary: cur)
  case Nil
  then show ?case by simp
next
  case (Cons c cs)
  show ?case
  proof (cases "c = sep")
    case True
    with Cons.prems have "l = cur \<or> l \<in> set (split_from sep [] cs)" by simp
    then show ?thesis
    proof
      assume "l = cur"
      then show ?thesis by simp
    next
      assume "l \<in> set (split_from sep [] cs)"
      then have "sublist l ([] @ cs)" by (rule Cons.IH)
      then have "sublist l cs" by simp
      then obtain a b where "cs = a @ l @ b" by (auto simp: sublist_def)
      then have "cur @ c # cs = (cur @ c # a) @ l @ b" by simp
      then show ?thesis unfolding sublist_def by blast
    qed
  next
    case False
    with Cons.prems have "l \<in> set (split_from sep (cur @ [c]) cs)" by simp
    then have "sublist l ((cur @ [c]) @ cs)" by (rule Cons.IH)
    then show ?thesis by simp
  qed
qed

lemma str_split_sublist: "l \<in> set (str_split s sep) \<Longrightarrow> sublist l s"
  using split_from_sublist [of l sep "[]" s] by (simp add: str_split_def)

lemma stripped_line_sublist:
  assumes "1 \<le> k" and "k \<le> length (str_split T sep)"
  shows "sublist (str_strip (str_split T sep ! (k - 1))) T"
proof -
  from assms have "str_split T sep ! (k - 1) \<in> set (str_split T sep)"
    by simp
  then have "sublist (str_split T sep ! (k - 1)) T" by (rule str_split_sublist)
  with str_strip_sublist [of "str_split T sep ! (k - 1)"] show ?thesis
    by (rule sublist_order.order.trans)
qed

lemma py_slice_window: "py_slice lines (i - 1) (i + 10) = take 11 (drop (i - 1) lines)" if "1 \<le> i"
proof -
  from that have "i + 10 - (i - 1) = 11" by simp
  then show ?thesis by (simp add: py_slice_def drop_take)
qed

section \<open>Decimal numbers and the messages\<close>

lemma digit_val_digit_char: "d < 10 \<Longrightarrow> digit_val (digit_char d) = d"
  by (simp add: digit_val_def digit_char_def)

lemma dec_value_snoc: "dec_value (s @ [c]) = 10 * dec_value s + digit_val c"
  by (simp add: dec_value_def)

lemma dec_value_str_nat: "dec_value (str_nat n) = n"
proof (induction n rule: str_nat.induct)
  case (1 n)
  show ?case
  proof (cases "n < 10")
    case True
    then show ?thesis
      by (subst str_nat.simps) (simp add: dec_value_def digit_val_digit_char)
  next
    case False
    with 1 have "dec_value (str_nat (n div 10)) = n div 10" by simp
    with False show ?thesis
      by (subst str_nat.simps) (simp add: dec_value_snoc digit_val_digit_char)
  qed
qed

lemma str_nat_inj: "str_nat m = str_nat n \<Longrightarrow> m = n"
  by (metis dec_value_str_nat)

lemma digit_char_not_colon: "d < 10 \<Longrightarrow> digit_char d \<noteq> CHR '':''"
proof
  assume d: "d < 10" and "digit_char d = CHR '':''"
  then have "of_char (digit_char d) = (of_char (CHR '':'') :: nat)" by simp
  with d show False by (simp add: digit_char_def)
qed

lemma str_nat_no_colon: "CHR '':'' \<notin> set (str_nat n)"
proof (induction n rule: str_nat.induct)
  case (1 n)
  show ?case
  proof (cases "n < 10")
    case True
    then show ?thesis
      using digit_char_not_colon [of n] by (subst str_nat.simps) auto
  next
    case False
    with 1 have "CHR '':'' \<notin> set (str_nat (n div 10))" by simp
    with False show ?thesis
      using digit_char_not_colon [of "n mod 10"] by (subst str_nat.simps) auto
  qed
qed

lemma takeWhile_colon: "takeWhile (\<lambda>c. c \<noteq> CHR '':'') (str_nat n @ CHR '':'' # rest) = str_nat n"
  using str_nat_no_colon [of n] by (simp add: takeWhile_append)

lemma str_nat_1: "str_nat (Suc 0) = ''1''"
  by code_simp

lemma str_nat_2: "str_nat (Suc (Suc 0)) = ''2''"
  by code_simp

lemma line_number_of_constraint_error: "line_number_of (constraint_error i) = i"
  by (simp add: line_number_of_def constraint_error_def takeWhile_colon dec_value_str_nat)

lemma line_number_of_do_block_error: "line_number_of (do_block_error i) = i"
  by (simp add: line_number_of_def do_block_error_def takeWhile_colon dec_value_str_nat)

lemma line_number_of_function_warning: "line_number_of (function_warning i) = i"
  by (simp add: line_number_of_def function_warning_def takeWhile_colon dec_value_str_nat)

lemma do_block_error_inj: "do_block_error i = do_block_error k \<longleftrightarrow> i = k"
  by (metis line_number_of_do_block_error)

lemma constraint_error_inj: "constraint_error i = constraint_error k \<longleftrightarrow> i = k"
  by (metis line_number_of_constraint_error)

lemma function_warning_inj: "function_warning i = function_warning k \<longleftrightarrow> i = k"
  by (metis line_number_of_function_warning)

lemma constraint_not_do_block: "constraint_error i \<noteq> do_block_error k"
proof
  assume eq: "constraint_error i = do_block_error k"
  then have "i = k" by (metis line_number_of_constraint_error line_number_of_do_block_error)
  with eq show False by (simp add: constraint_error_def do_block_error_def)
qed

section \<open>The loops return, and what they return\<close>

lemma do_block_while_result:
  "\<exists>bc. do_block_while lines j block_content =
     Some ((\<exists>k \<in> {j ..< length lines}. str_endswith (str_strip (lines ! (k - 1))) ''$$;''), bc)"
proof (induction "length lines - j" arbitrary: j block_content)
  case 0
  then have "\<not> j < length lines" by simp
  then show ?case by (subst do_block_while.simps) simp
next
  case (Suc d)
  then have lt: "j < length lines" by simp
  show ?case
  proof (cases "str_endswith (str_strip (lines ! (j - 1))) ''$$;''")
    case True
    with lt have "\<exists>k \<in> {j ..< length lines}. str_endswith (str_strip (lines ! (k - 1))) ''$$;''"
      by auto
    with lt True show ?thesis by (subst do_block_while.simps) simp
  next
    case False
    from Suc have "d = length lines - (j + 1)" by simp
    from Suc.hyps(1) [OF this, of "block_content @ [lines ! (j - 1)]"]
    obtain bc where bc: "do_block_while lines (j + 1) (block_content @ [lines ! (j - 1)]) =
        Some ((\<exists>k \<in> {j + 1 ..< length lines}. str_endswith (str_strip (lines ! (k - 1))) ''$$;''), bc)"
      by blast
    have "(\<exists>k \<in> {j + 1 ..< length lines}. str_endswith (str_strip (lines ! (k - 1))) ''$$;'')
        = (\<exists>k \<in> {j ..< length lines}. str_endswith (str_strip (lines ! (k - 1))) ''$$;'')"
    proof
      assume "\<exists>k \<in> {j + 1 ..< length lines}. str_endswith (str_strip (lines ! (k - 1))) ''$$;''"
      then show "\<exists>k \<in> {j ..< length lines}. str_endswith (str_strip (lines ! (k - 1))) ''$$;''"
        by auto
    next
      assume "\<exists>k \<in> {j ..< length lines}. str_endswith (str_strip (lines ! (k - 1))) ''$$;''"
      then obtain k where k: "j \<le> k" "k < length lines"
        "str_endswith (str_strip (lines ! (k - 1))) ''$$;''" by auto
      with False have "k \<noteq> j" by auto
      with k show "\<exists>k \<in> {j + 1 ..< length lines}. str_endswith (str_strip (lines ! (k - 1))) ''$$;''"
        by auto
    qed
    with bc lt False show ?thesis by (subst do_block_while.simps) (simp add: Let_def)
  qed
qed

lemma loop_body_eq:
  "loop_body lines i raw (errors, warnings) =
     Some (errors @ line_errors lines i raw, warnings @ line_warnings lines i raw)"
proof -
  obtain bc where "do_block_while lines i [] =
     Some ((\<exists>k \<in> {i ..< length lines}. str_endswith (str_strip (lines ! (k - 1))) ''$$;''), bc)"
    using do_block_while_result [of lines i "[]"] by blast
  then show ?thesis
    by (simp add: loop_body_def line_errors_def line_warnings_def Let_def)
qed

lemma for_lines_eq:
  "for_lines lines i rest (errors, warnings) =
     Some (errors @ concat (map (\<lambda>(k, raw). line_errors lines k raw) (enumerate i rest)),
           warnings @ concat (map (\<lambda>(k, raw). line_warnings lines k raw) (enumerate i rest)))"
  by (induction rest arbitrary: i errors warnings) (simp_all add: loop_body_eq)

lemma validate_sql_syntax_eq:
  "validate_sql_syntax T =
     Some (all_errors (str_split T (CHR 0x0A)), all_warnings (str_split T (CHR 0x0A)))"
  by (simp add: validate_sql_syntax_def Let_def for_lines_eq all_errors_def all_warnings_def)

section \<open>The findings of a document\<close>

lemma in_all_errors:
  "e \<in> set (all_errors lines) \<longleftrightarrow>
     (\<exists>i. 1 \<le> i \<and> i \<le> length lines \<and> e \<in> set (line_errors lines i (lines ! (i - 1))))"
proof
  assume "e \<in> set (all_errors lines)"
  then obtain k raw where kr: "(k, raw) \<in> set (enumerate 1 lines)"
    and e: "e \<in> set (line_errors lines k raw)"
    by (auto simp: all_errors_def)
  from kr have "1 \<le> k" "k \<le> length lines" "lines ! (k - 1) = raw"
    by (auto simp: in_set_enumerate_eq)
  with e show "\<exists>i. 1 \<le> i \<and> i \<le> length lines \<and> e \<in> set (line_errors lines i (lines ! (i - 1)))"
    by blast
next
  assume "\<exists>i. 1 \<le> i \<and> i \<le> length lines \<and> e \<in> set (line_errors lines i (lines ! (i - 1)))"
  then obtain i where i: "1 \<le> i" "i \<le> length lines"
    and e: "e \<in> set (line_errors lines i (lines ! (i - 1)))" by blast
  from i have "(i, lines ! (i - 1)) \<in> set (enumerate 1 lines)"
    by (simp add: in_set_enumerate_eq)
  with e show "e \<in> set (all_errors lines)"
    by (force simp: all_errors_def)
qed

lemma in_all_warnings:
  "w \<in> set (all_warnings lines) \<longleftrightarrow>
     (\<exists>i. 1 \<le> i \<and> i \<le> length lines \<and> w \<in> set (line_warnings lines i (lines ! (i - 1))))"
proof
  assume "w \<in> set (all_warnings lines)"
  then obtain k raw where kr: "(k, raw) \<in> set (enumerate 1 lines)"
    and w: "w \<in> set (line_warnings lines k raw)"
    by (auto simp: all_warnings_def)
  from kr have "1 \<le> k" "k \<le> length lines" "lines ! (k - 1) = raw"
    by (auto simp: in_set_enumerate_eq)
  with w show "\<exists>i. 1 \<le> i \<and> i \<le> length lines \<and> w \<in> set (line_warnings lines i (lines ! (i - 1)))"
    by blast
next
  assume "\<exists>i. 1 \<le> i \<and> i \<le> length lines \<and> w \<in> set (line_warnings lines i (lines ! (i - 1)))"
  then obtain i where i: "1 \<le> i" "i \<le> length lines"
    and w: "w \<in> set (line_warnings lines i (lines ! (i - 1)))" by blast
  from i have "(i, lines ! (i - 1)) \<in> set (enumerate 1 lines)"
    by (simp add: in_set_enumerate_eq)
  with w show "w \<in> set (all_warnings lines)"
    by (force simp: all_warnings_def)
qed

lemma all_errors_empty:
  assumes "\<And>k. 1 \<le> k \<Longrightarrow> k \<le> length lines \<Longrightarrow> line_errors lines k (lines ! (k - 1)) = []"
  shows "all_errors lines = []"
proof (rule ccontr)
  assume "all_errors lines \<noteq> []"
  then obtain e where "e \<in> set (all_errors lines)"
    by (cases "all_errors lines") auto
  then obtain i where "1 \<le> i" "i \<le> length lines" "e \<in> set (line_errors lines i (lines ! (i - 1)))"
    unfolding in_all_errors by blast
  with assms [of i] show False by simp
qed

lemma all_warnings_empty:
  assumes "\<And>k. 1 \<le> k \<Longrightarrow> k \<le> length lines \<Longrightarrow> line_warnings lines k (lines ! (k - 1)) = []"
  shows "all_warnings lines = []"
proof (rule ccontr)
  assume "all_warnings lines \<noteq> []"
  then obtain w where "w \<in> set (all_warnings lines)"
    by (cases "all_warnings lines") auto
  then obtain i where "1 \<le> i" "i \<le> length lines" "w \<in> set (line_warnings lines i (lines ! (i - 1)))"
    unfolding in_all_warnings by blast
  with assms [of i] show False by simp
qed

lemma do_opener_checked:
  assumes "str_startswith line ''DO $$''"
  shows "line \<noteq> []" and "\<not> str_startswith line ''--''"
  using assms by (cases line; auto simp: str_startswith_def)+

lemma in_line_errors:
  assumes "e \<in> set (line_errors lines i raw)"
  shows "str_strip raw \<noteq> [] \<and> \<not> str_startswith (str_strip raw) ''--''
     \<and> ((e = constraint_error i \<and> str_contains ''ADD CONSTRAINT IF NOT EXISTS'' (str_strip raw))
        \<or> (e = do_block_error i \<and> str_startswith (str_strip raw) ''DO $$''
             \<and> \<not> str_endswith (str_strip raw) ''$$;''
             \<and> \<not> (\<exists>k \<in> {i ..< length lines}. str_endswith (str_strip (lines ! (k - 1))) ''$$;'')))"
  using assms by (auto simp: line_errors_def Let_def split: if_splits)

lemma in_line_warnings:
  assumes "w \<in> set (line_warnings lines i raw)"
  shows "str_strip raw \<noteq> [] \<and> \<not> str_startswith (str_strip raw) ''--''
     \<and> w = function_warning i \<and> str_contains ''CREATE OR REPLACE FUNCTION'' (str_strip raw)
     \<and> \<not> str_contains ''$$'' (concat (py_slice lines (i - 1) (i + 10)))"
  using assms by (auto simp: line_warnings_def Let_def split: if_splits)

lemma constraint_error_in_all_errors:
  "constraint_error i \<in> set (all_errors lines) \<longleftrightarrow>
     1 \<le> i \<and> i \<le> length lines \<and> str_strip (lines ! (i - 1)) \<noteq> []
     \<and> \<not> str_startswith (str_strip (lines ! (i - 1))) ''--''
     \<and> str_contains ''ADD CONSTRAINT IF NOT EXISTS'' (str_strip (lines ! (i - 1)))"
proof
  assume "constraint_error i \<in> set (all_errors lines)"
  then obtain k where k: "1 \<le> k" "k \<le> length lines"
    and e: "constraint_error i \<in> set (line_errors lines k (lines ! (k - 1)))"
    unfolding in_all_errors by blast
  from in_line_errors [OF e] constraint_not_do_block [of i k] have "k = i"
    by (auto simp: constraint_error_inj)
  with k in_line_errors [OF e] constraint_not_do_block [of i k]
  show "1 \<le> i \<and> i \<le> length lines \<and> str_strip (lines ! (i - 1)) \<noteq> []
     \<and> \<not> str_startswith (str_strip (lines ! (i - 1))) ''--''
     \<and> str_contains ''ADD CONSTRAINT IF NOT EXISTS'' (str_strip (lines ! (i - 1)))"
    by blast
next
  assume a: "1 \<le> i \<and> i \<le> length lines \<and> str_strip (lines ! (i - 1)) \<noteq> []
     \<and> \<not> str_startswith (str_strip (lines ! (i - 1))) ''--''
     \<and> str_contains ''ADD CONSTRAINT IF NOT EXISTS'' (str_strip (lines ! (i - 1)))"
  then have "constraint_error i \<in> set (line_errors lines i (lines ! (i - 1)))"
    by (simp add: line_errors_def Let_def)
  with a show "constraint_error i \<in> set (all_errors lines)"
    unfolding in_all_errors by blast
qed

lemma do_block_error_in_all_errors:
  "do_block_error i \<in> set (all_errors lines) \<longleftrightarrow>
     1 \<le> i \<and> i \<le> length lines
     \<and> str_startswith (str_strip (lines ! (i - 1))) ''DO $$''
     \<and> \<not> str_endswith (str_strip (lines ! (i - 1))) ''$$;''
     \<and> \<not> (\<exists>k \<in> {i ..< length lines}. str_endswith (str_strip (lines ! (k - 1))) ''$$;'')"
proof
  assume "do_block_error i \<in> set (all_errors lines)"
  then obtain k where k: "1 \<le> k" "k \<le> length lines"
    and e: "do_block_error i \<in> set (line_errors lines k (lines ! (k - 1)))"
    unfolding in_all_errors by blast
  from in_line_errors [OF e] constraint_not_do_block [of k i] have "k = i"
    by (auto simp: do_block_error_inj)
  with k in_line_errors [OF e] constraint_not_do_block [of k i]
  show "1 \<le> i \<and> i \<le> length lines
     \<and> str_startswith (str_strip (lines ! (i - 1))) ''DO $$''
     \<and> \<not> str_endswith (str_strip (lines ! (i - 1))) ''$$;''
     \<and> \<not> (\<exists>k \<in> {i ..< length lines}. str_endswith (str_strip (lines ! (k - 1))) ''$$;'')"
    by metis
next
  assume a: "1 \<le> i \<and> i \<le> length lines
     \<and> str_startswith (str_strip (lines ! (i - 1))) ''DO $$''
     \<and> \<not> str_endswith (str_strip (lines ! (i - 1))) ''$$;''
     \<and> \<not> (\<exists>k \<in> {i ..< length lines}. str_endswith (str_strip (lines ! (k - 1))) ''$$;'')"
  then have "str_startswith (str_strip (lines ! (i - 1))) ''DO $$''" by blast
  from a do_opener_checked [OF this]
  have "do_block_error i \<in> set (line_errors lines i (lines ! (i - 1)))"
    by (simp add: line_errors_def Let_def)
  with a show "do_block_error i \<in> set (all_errors lines)"
    unfolding in_all_errors by blast
qed

lemma function_warning_in_all_warnings:
  "function_warning i \<in> set (all_warnings lines) \<longleftrightarrow>
     1 \<le> i \<and> i \<le> length lines \<and> str_strip (lines ! (i - 1)) \<noteq> []
     \<and> \<not> str_startswith (str_strip (lines ! (i - 1))) ''--''
     \<and> str_contains ''CREATE OR REPLACE FUNCTION'' (str_strip (lines ! (i - 1)))
     \<and> \<not> str_contains ''$$'' (concat (py_slice lines (i - 1) (i + 10)))"
proof
  assume "function_warning i \<in> set (all_warnings lines)"
  then obtain k where k: "1 \<le> k" "k \<le> length lines"
    and w: "function_warning i \<in> set (line_warnings lines k (lines ! (k - 1)))"
    unfolding in_all_warnings by blast
  from in_line_warnings [OF w] have "k = i"
    by (simp add: function_warning_inj)
  with k in_line_warnings [OF w]
  show "1 \<le> i \<and> i \<le> length lines \<and> str_strip (lines ! (i - 1)) \<noteq> []
     \<and> \<not> str_startswith (str_strip (lines ! (i - 1))) ''--''
     \<and> str_contains ''CREATE OR REPLACE FUNCTION'' (str_strip (lines ! (i - 1)))
     \<and> \<not> str_contains ''$$'' (concat (py_slice lines (i - 1) (i + 10)))"
    by blast
next
  assume a: "1 \<le> i \<and> i \<le> length lines \<and> str_strip (lines ! (i - 1)) \<noteq> []
     \<and> \<not> str_startswith (str_strip (lines ! (i - 1))) ''--''
     \<and> str_contains ''CREATE OR REPLACE FUNCTION'' (str_strip (lines ! (i - 1)))
     \<and> \<not> str_contains ''$$'' (concat (py_slice lines (i - 1) (i + 10)))"
  then have "function_warning i \<in> set (line_warnings lines i (lines ! (i - 1)))"
    by (simp add: line_warnings_def Let_def)
  with a show "function_warning i \<in> set (all_warnings lines)"
    unfolding in_all_warnings by blast
qed

lemma count_line_errors_do_block:
  "count_list (line_errors lines k raw) (do_block_error i) =
     (if k = i \<and> do_block_error i \<in> set (line_errors lines i raw) then 1 else 0)"
  using constraint_not_do_block [of k i]
  by (auto simp: line_errors_def Let_def do_block_error_inj)

lemma count_enumerate_do_block:
  "count_list (concat (map (\<lambda>(k, raw). line_errors lines k raw) (enumerate n xs))) (do_block_error i) =
     (if n \<le> i \<and> i < n + length xs \<and> do_block_error i \<in> set (line_errors lines i (xs ! (i - n)))
      then 1 else 0)"
proof (induction xs arbitrary: n)
  case Nil
  then show ?case by simp
next
  case (Cons x xs)
  show ?case
  proof (cases "i = n")
    case True
    with Cons [of "Suc n"] show ?thesis
      by (simp add: count_line_errors_do_block)
  next
    case False
    then have "(x # xs) ! (i - n) = xs ! (i - Suc n)" if "n \<le> i"
      using that by (simp add: nth_Cons')
    with False show ?thesis
      by (auto simp: Cons count_line_errors_do_block)
  qed
qed

section \<open>The report\<close>

lemma main_Content:
  "main (Content T) =
     Some (report T (all_errors (str_split T (CHR 0x0A))) (all_warnings (str_split T (CHR 0x0A))),
           Returned (if all_errors (str_split T (CHR 0x0A)) = [] then 0 else 1))"
  by (simp add: main_def validate_sql_syntax_eq)

lemma exit_code_Content:
  "exit_code (Content T) = Some (if all_errors (str_split T (CHR 0x0A)) = [] then 0 else 1)"
  by (simp add: exit_code_def main_Content exit_status_def)

lemma last_butlast_report:
  "last (butlast (report T errors warnings)) =
     [CHR 0x0A] @ bar_chart @ '' File contains '' @ str_nat (length (str_split T (CHR '';'')))
       @ '' SQL statements''"
  by (simp add: report_def butlast_append last_append)

lemma not_found_not_rule: "cross_mark @ '' SQL file not found'' \<noteq> replicate 40 (CHR ''='')"
proof
  assume "cross_mark @ '' SQL file not found'' = replicate 40 (CHR ''='')"
  then have "length (cross_mark @ '' SQL file not found'') = length (replicate 40 (CHR ''=''))"
    by (rule arg_cong)
  then show False by (simp add: cross_mark_def)
qed

lemma not_found_not_in_report:
  "cross_mark @ '' SQL file not found'' \<notin> set (report T errors warnings)"
  using not_found_not_rule by (auto simp: report_def cross_mark_def check_mark_def)

section \<open>The DO block check: a closing line\<close>

text \<open>
  Claim C1. A \<open>DO $$\<close> opener followed by a closing line should give no error; the claim
  names the document of the two lines \<open>DO $$\<close> and \<open>BEGIN NULL; END $$;\<close>. On that
  document the loop runs while \<open>j < len(lines)\<close> with \<open>j\<close> counting from 1, so it reads
  line 1 only and never the last line: the validator reports an unclosed block and the
  exit code is 1.
\<close>

theorem do_block_closed_on_last_line:
  "validate_sql_syntax (''DO $$'' @ [CHR 0x0A] @ ''BEGIN NULL; END $$;'')
     = Some ([''Line 1: DO block not properly closed''], [])
   \<and> exit_code (Content (''DO $$'' @ [CHR 0x0A] @ ''BEGIN NULL; END $$;'')) = Some 1"
  by code_simp

text \<open>
  With a newline after the closing line the text has a third, empty line, the loop
  reaches the closing line and no error is reported.
\<close>

lemma do_block_closed_before_last_line:
  "validate_sql_syntax ''DO $$\<newline>BEGIN NULL; END $$;\<newline>'' = Some ([], [])"
  by code_simp

section \<open>The DO block check: no closing line\<close>

text \<open>
  Claim C2. A stripped line that begins with \<open>DO $$\<close> and does not end with \<open>$$;\<close>, when
  no line from it to the end of the document ends, stripped, with \<open>$$;\<close>, gives exactly
  one error that carries the number of the opener and says that the DO block was not
  properly closed. The four lines of Scenario 3 give this error for line 1 and no other,
  and exit code 1.
\<close>

theorem unclosed_do_block_error:
  assumes "lines = str_split T (CHR 0x0A)" and "1 \<le> i" and "i \<le> length lines"
    and "line = str_strip (lines ! (i - 1))"
    and "str_startswith line ''DO $$''" and "\<not> str_endswith line ''$$;''"
    and "\<forall>k. i \<le> k \<and> k \<le> length lines \<longrightarrow> \<not> str_endswith (str_strip (lines ! (k - 1))) ''$$;''"
  shows "(\<exists>errors warnings. validate_sql_syntax T = Some (errors, warnings)
            \<and> count_list errors (do_block_error i) = 1
            \<and> line_number_of (do_block_error i) = i
            \<and> do_block_error i = ''Line '' @ str_nat i @ '': DO block not properly closed'')
       \<and> validate_sql_syntax ''DO $$\<newline>BEGIN\<newline>  NULL;\<newline>END''
           = Some ([''Line 1: DO block not properly closed''], [])
       \<and> exit_code (Content ''DO $$\<newline>BEGIN\<newline>  NULL;\<newline>END'') = Some 1"
proof -
  from assms(7) have "\<not> (\<exists>k \<in> {i ..< length lines}. str_endswith (str_strip (lines ! (k - 1))) ''$$;'')"
    by auto
  with assms(4-6) do_opener_checked [OF assms(5)]
  have "do_block_error i \<in> set (line_errors lines i (lines ! (i - 1)))"
    by (simp add: line_errors_def Let_def)
  with assms(2,3) have "count_list (all_errors lines) (do_block_error i) = 1"
    unfolding all_errors_def count_enumerate_do_block by simp
  with assms(1)
  have general: "\<exists>errors warnings. validate_sql_syntax T = Some (errors, warnings)
            \<and> count_list errors (do_block_error i) = 1
            \<and> line_number_of (do_block_error i) = i
            \<and> do_block_error i = ''Line '' @ str_nat i @ '': DO block not properly closed''"
    by (simp add: validate_sql_syntax_eq line_number_of_do_block_error)
       (simp add: do_block_error_def)
  have scenario: "validate_sql_syntax ''DO $$\<newline>BEGIN\<newline>  NULL;\<newline>END''
           = Some ([''Line 1: DO block not properly closed''], [])"
    by code_simp
  have code: "exit_code (Content ''DO $$\<newline>BEGIN\<newline>  NULL;\<newline>END'') = Some 1"
    by code_simp
  from general scenario code show ?thesis by blast
qed

theorem unclosed_do_block_error_witness:
  "str_split ''SELECT 1;\<newline>DO $$ BEGIN\<newline>END $$'' (CHR 0x0A) = [''SELECT 1;'', ''DO $$ BEGIN'', ''END $$'']
   \<and> (\<exists>errors warnings.
         validate_sql_syntax ''SELECT 1;\<newline>DO $$ BEGIN\<newline>END $$'' = Some (errors, warnings)
         \<and> count_list errors (do_block_error 2) = 1)"
proof -
  let ?T = "''SELECT 1;\<newline>DO $$ BEGIN\<newline>END $$''"
  let ?lines = "[''SELECT 1;'', ''DO $$ BEGIN'', ''END $$'']"
  have lines: "str_split ?T (CHR 0x0A) = ?lines"
    by code_simp
  have h1: "?lines = str_split ?T (CHR 0x0A)"
    by (simp add: lines)
  have h2: "(1::nat) \<le> 2" and h3: "2 \<le> length ?lines"
    by simp_all
  have h4: "''DO $$ BEGIN'' = str_strip (?lines ! (2 - 1))"
    by code_simp
  have h5: "str_startswith ''DO $$ BEGIN'' ''DO $$''"
    by code_simp
  have h6: "\<not> str_endswith ''DO $$ BEGIN'' ''$$;''"
    by code_simp
  have h7: "\<forall>k. 2 \<le> k \<and> k \<le> length ?lines \<longrightarrow> \<not> str_endswith (str_strip (?lines ! (k - 1))) ''$$;''"
  proof (intro allI impI)
    fix k :: nat assume "2 \<le> k \<and> k \<le> length ?lines"
    then have "k = 2 \<or> k = 3" by auto
    moreover have "\<not> str_endswith (str_strip (?lines ! (2 - 1))) ''$$;''"
      by code_simp
    moreover have "\<not> str_endswith (str_strip (?lines ! (3 - 1))) ''$$;''"
      by code_simp
    ultimately show "\<not> str_endswith (str_strip (?lines ! (k - 1))) ''$$;''"
      by blast
  qed
  from unclosed_do_block_error [OF h1 h2 h3 h4 h5 h6 h7] lines
  show ?thesis by blast
qed

section \<open>The constraint clause check\<close>

text \<open>
  Claim C3. A line whose stripped form is not empty, does not start with \<open>--\<close> and
  contains \<open>ADD CONSTRAINT IF NOT EXISTS\<close> gives an error that carries the number of the
  line, counted from 1, and says that the clause is not valid syntax. The one-line text
  of Scenario 2 gives this error for line 1 and no other, and exit code 1. The pattern
  begins and ends with a letter, so it occurs in the stripped line exactly when it occurs
  in the raw line (\<open>patterns_in_raw_line\<close>).
\<close>

theorem constraint_clause_error:
  assumes "lines = str_split T (CHR 0x0A)" and "1 \<le> i" and "i \<le> length lines"
    and "line = str_strip (lines ! (i - 1))"
    and "line \<noteq> []" and "\<not> str_startswith line ''--''"
    and "str_contains ''ADD CONSTRAINT IF NOT EXISTS'' line"
  shows "(\<exists>errors warnings. validate_sql_syntax T = Some (errors, warnings)
            \<and> constraint_error i \<in> set errors \<and> line_number_of (constraint_error i) = i)
       \<and> validate_sql_syntax ''ALTER TABLE t ADD CONSTRAINT IF NOT EXISTS ck CHECK (x>0);''
           = Some ([''Line 1: '' @ [CHR 0x27] @ ''ADD CONSTRAINT IF NOT EXISTS'' @ [CHR 0x27]
                      @ '' is not valid PostgreSQL syntax''], [])
       \<and> exit_code (Content ''ALTER TABLE t ADD CONSTRAINT IF NOT EXISTS ck CHECK (x>0);'') = Some 1"
proof -
  from assms have "constraint_error i \<in> set (line_errors lines i (lines ! (i - 1)))"
    by (simp add: line_errors_def Let_def)
  with assms(1-3) have "constraint_error i \<in> set (all_errors (str_split T (CHR 0x0A)))"
    unfolding in_all_errors by blast
  then have general: "\<exists>errors warnings. validate_sql_syntax T = Some (errors, warnings)
            \<and> constraint_error i \<in> set errors \<and> line_number_of (constraint_error i) = i"
    by (simp add: validate_sql_syntax_eq line_number_of_constraint_error)
  have scenario: "validate_sql_syntax ''ALTER TABLE t ADD CONSTRAINT IF NOT EXISTS ck CHECK (x>0);''
           = Some ([''Line 1: '' @ [CHR 0x27] @ ''ADD CONSTRAINT IF NOT EXISTS'' @ [CHR 0x27]
                      @ '' is not valid PostgreSQL syntax''], [])"
    by code_simp
  have code: "exit_code (Content ''ALTER TABLE t ADD CONSTRAINT IF NOT EXISTS ck CHECK (x>0);'') = Some 1"
    by code_simp
  from general scenario code show ?thesis by blast
qed

theorem constraint_clause_error_witness:
  "str_split ''-- fix\<newline>  ALTER TABLE t ADD CONSTRAINT IF NOT EXISTS c;'' (CHR 0x0A) ! (2 - 1)
      = ''  ALTER TABLE t ADD CONSTRAINT IF NOT EXISTS c;''
   \<and> (\<exists>errors warnings.
         validate_sql_syntax ''-- fix\<newline>  ALTER TABLE t ADD CONSTRAINT IF NOT EXISTS c;''
           = Some (errors, warnings)
         \<and> constraint_error 2 \<in> set errors)"
proof -
  let ?T = "''-- fix\<newline>  ALTER TABLE t ADD CONSTRAINT IF NOT EXISTS c;''"
  have lines: "str_split ?T (CHR 0x0A) = [''-- fix'', ''  ALTER TABLE t ADD CONSTRAINT IF NOT EXISTS c;'']"
    by code_simp
  have strip: "str_strip (''  ALTER TABLE t ADD CONSTRAINT IF NOT EXISTS c;'')
      = ''ALTER TABLE t ADD CONSTRAINT IF NOT EXISTS c;''"
    by code_simp
  have h2: "(1::nat) \<le> 2" and h3: "2 \<le> length (str_split ?T (CHR 0x0A))"
    by (simp_all add: lines)
  have h4: "''ALTER TABLE t ADD CONSTRAINT IF NOT EXISTS c;'' = str_strip (str_split ?T (CHR 0x0A) ! (2 - 1))"
    by (simp add: lines strip)
  have h5: "''ALTER TABLE t ADD CONSTRAINT IF NOT EXISTS c;'' \<noteq> []" by simp
  have h6: "\<not> str_startswith ''ALTER TABLE t ADD CONSTRAINT IF NOT EXISTS c;'' ''--''"
    by code_simp
  have h7: "str_contains ''ADD CONSTRAINT IF NOT EXISTS'' ''ALTER TABLE t ADD CONSTRAINT IF NOT EXISTS c;''"
    by code_simp
  from constraint_clause_error [OF refl h2 h3 h4 h5 h6 h7] lines
  show ?thesis by auto
qed

section \<open>The function delimiter check\<close>

text \<open>
  Claim C4. A checked line that contains \<open>CREATE OR REPLACE FUNCTION\<close>, when \<open>$$\<close> does
  not occur in the concatenation of the line and the next 10 lines (or of the lines that
  remain), gives a warning that carries the number of the line. When no checked line
  triggers an error check, the warning leaves \<open>errors\<close> empty and the exit code 0, as
  in Scenario 5. The window is the slice \<open>lines[i-1:i+10]\<close> of the raw lines, joined
  without separator.
\<close>

theorem function_delimiter_warning:
  assumes "lines = str_split T (CHR 0x0A)" and "1 \<le> i" and "i \<le> length lines"
    and "line = str_strip (lines ! (i - 1))"
    and "line \<noteq> []" and "\<not> str_startswith line ''--''"
    and "str_contains ''CREATE OR REPLACE FUNCTION'' line"
    and "\<not> str_contains ''$$'' (concat (take 11 (drop (i - 1) lines)))"
  shows "(\<exists>errors warnings. validate_sql_syntax T = Some (errors, warnings)
            \<and> function_warning i \<in> set warnings \<and> line_number_of (function_warning i) = i
            \<and> ((\<forall>k. 1 \<le> k \<and> k \<le> length lines \<longrightarrow>
                     \<not> str_contains ''ADD CONSTRAINT IF NOT EXISTS'' (str_strip (lines ! (k - 1)))
                   \<and> \<not> str_startswith (str_strip (lines ! (k - 1))) ''DO $$'')
                 \<longrightarrow> errors = [] \<and> exit_code (Content T) = Some 0))
       \<and> validate_sql_syntax ''CREATE OR REPLACE FUNCTION f() RETURNS int AS BEGIN RETURN 1; END;''
           = Some ([], [''Line 1: Function may be missing proper delimiters''])
       \<and> exit_code (Content ''CREATE OR REPLACE FUNCTION f() RETURNS int AS BEGIN RETURN 1; END;'')
           = Some 0"
proof -
  from assms(2) have "py_slice lines (i - 1) (i + 10) = take 11 (drop (i - 1) lines)"
    by (rule py_slice_window)
  with assms have "function_warning i \<in> set (line_warnings lines i (lines ! (i - 1)))"
    by (simp add: line_warnings_def Let_def)
  with assms(1-3) have emitted: "function_warning i \<in> set (all_warnings (str_split T (CHR 0x0A)))"
    unfolding in_all_warnings by blast
  have alone: "all_errors lines = []"
    if "\<forall>k. 1 \<le> k \<and> k \<le> length lines \<longrightarrow>
          \<not> str_contains ''ADD CONSTRAINT IF NOT EXISTS'' (str_strip (lines ! (k - 1)))
        \<and> \<not> str_startswith (str_strip (lines ! (k - 1))) ''DO $$''"
  proof (rule all_errors_empty)
    fix k assume "1 \<le> k" "k \<le> length lines"
    with that show "line_errors lines k (lines ! (k - 1)) = []"
      by (simp add: line_errors_def Let_def)
  qed
  from emitted alone assms(1)
  have general: "\<exists>errors warnings. validate_sql_syntax T = Some (errors, warnings)
            \<and> function_warning i \<in> set warnings \<and> line_number_of (function_warning i) = i
            \<and> ((\<forall>k. 1 \<le> k \<and> k \<le> length lines \<longrightarrow>
                     \<not> str_contains ''ADD CONSTRAINT IF NOT EXISTS'' (str_strip (lines ! (k - 1)))
                   \<and> \<not> str_startswith (str_strip (lines ! (k - 1))) ''DO $$'')
                 \<longrightarrow> errors = [] \<and> exit_code (Content T) = Some 0)"
    by (simp add: validate_sql_syntax_eq line_number_of_function_warning exit_code_Content)
  have scenario: "validate_sql_syntax ''CREATE OR REPLACE FUNCTION f() RETURNS int AS BEGIN RETURN 1; END;''
           = Some ([], [''Line 1: Function may be missing proper delimiters''])"
    by code_simp
  have code: "exit_code (Content ''CREATE OR REPLACE FUNCTION f() RETURNS int AS BEGIN RETURN 1; END;'')
           = Some 0"
    by code_simp
  from general scenario code show ?thesis by blast
qed

theorem function_delimiter_warning_witness:
  "str_split ''SELECT 1;\<newline>CREATE OR REPLACE FUNCTION f() AS $\<newline>x $'' (CHR 0x0A)
      = [''SELECT 1;'', ''CREATE OR REPLACE FUNCTION f() AS $'', ''x $'']
   \<and> (\<exists>warnings.
         validate_sql_syntax ''SELECT 1;\<newline>CREATE OR REPLACE FUNCTION f() AS $\<newline>x $''
           = Some ([], warnings)
         \<and> function_warning 2 \<in> set warnings)
   \<and> exit_code (Content ''SELECT 1;\<newline>CREATE OR REPLACE FUNCTION f() AS $\<newline>x $'') = Some 0"
proof -
  let ?T = "''SELECT 1;\<newline>CREATE OR REPLACE FUNCTION f() AS $\<newline>x $''"
  let ?lines = "[''SELECT 1;'', ''CREATE OR REPLACE FUNCTION f() AS $'', ''x $'']"
  have lines: "str_split ?T (CHR 0x0A) = ?lines"
    by code_simp
  have h1: "?lines = str_split ?T (CHR 0x0A)"
    by (simp add: lines)
  have h2: "(1::nat) \<le> 2" and h3: "2 \<le> length ?lines"
    by simp_all
  have h4: "''CREATE OR REPLACE FUNCTION f() AS $'' = str_strip (?lines ! (2 - 1))"
    by code_simp
  have h5: "''CREATE OR REPLACE FUNCTION f() AS $'' \<noteq> []" by simp
  have h6: "\<not> str_startswith ''CREATE OR REPLACE FUNCTION f() AS $'' ''--''"
    by code_simp
  have h7: "str_contains ''CREATE OR REPLACE FUNCTION'' ''CREATE OR REPLACE FUNCTION f() AS $''"
    by code_simp
  have h8: "\<not> str_contains ''$$'' (concat (take 11 (drop (2 - 1) ?lines)))"
    by code_simp
  have h9: "\<forall>k. 1 \<le> k \<and> k \<le> length ?lines \<longrightarrow>
              \<not> str_contains ''ADD CONSTRAINT IF NOT EXISTS'' (str_strip (?lines ! (k - 1)))
            \<and> \<not> str_startswith (str_strip (?lines ! (k - 1))) ''DO $$''"
  proof (intro allI impI)
    fix k :: nat assume "1 \<le> k \<and> k \<le> length ?lines"
    then have "k = 1 \<or> k = 2 \<or> k = 3" by auto
    moreover have "\<not> str_contains ''ADD CONSTRAINT IF NOT EXISTS'' (str_strip (?lines ! (1 - 1)))
            \<and> \<not> str_startswith (str_strip (?lines ! (1 - 1))) ''DO $$''"
      by code_simp
    moreover have "\<not> str_contains ''ADD CONSTRAINT IF NOT EXISTS'' (str_strip (?lines ! (2 - 1)))
            \<and> \<not> str_startswith (str_strip (?lines ! (2 - 1))) ''DO $$''"
      by code_simp
    moreover have "\<not> str_contains ''ADD CONSTRAINT IF NOT EXISTS'' (str_strip (?lines ! (3 - 1)))
            \<and> \<not> str_startswith (str_strip (?lines ! (3 - 1))) ''DO $$''"
      by code_simp
    ultimately show "\<not> str_contains ''ADD CONSTRAINT IF NOT EXISTS'' (str_strip (?lines ! (k - 1)))
            \<and> \<not> str_startswith (str_strip (?lines ! (k - 1))) ''DO $$''"
      by blast
  qed
  from function_delimiter_warning [OF h1 h2 h3 h4 h5 h6 h7 h8] h9 lines
  show ?thesis by blast
qed

section \<open>Documents without triggers\<close>

text \<open>
  Claim C5. When no checked line (stripped form not empty and not starting with \<open>--\<close>)
  contains \<open>ADD CONSTRAINT IF NOT EXISTS\<close>, begins with \<open>DO $$\<close> or contains
  \<open>CREATE OR REPLACE FUNCTION\<close>, both \<open>errors\<close> and \<open>warnings\<close> are empty. This holds in
  particular for a text in which the three patterns do not occur at all, and for the
  empty text.
\<close>

theorem no_trigger_no_findings:
  "((\<forall>k. 1 \<le> k \<and> k \<le> length (str_split T (CHR 0x0A)) \<longrightarrow>
        (let line = str_strip (str_split T (CHR 0x0A) ! (k - 1)) in
         line \<noteq> [] \<and> \<not> str_startswith line ''--'' \<longrightarrow>
           \<not> str_contains ''ADD CONSTRAINT IF NOT EXISTS'' line
         \<and> \<not> str_startswith line ''DO $$''
         \<and> \<not> str_contains ''CREATE OR REPLACE FUNCTION'' line))
      \<longrightarrow> validate_sql_syntax T = Some ([], []))
   \<and> (\<not> str_contains ''ADD CONSTRAINT IF NOT EXISTS'' T \<and> \<not> str_contains ''DO $$'' T
        \<and> \<not> str_contains ''CREATE OR REPLACE FUNCTION'' T
      \<longrightarrow> validate_sql_syntax T = Some ([], []))
   \<and> validate_sql_syntax '''' = Some ([], [])"
proof (intro conjI impI)
  let ?lines = "str_split T (CHR 0x0A)"
  assume a: "\<forall>k. 1 \<le> k \<and> k \<le> length ?lines \<longrightarrow>
        (let line = str_strip (?lines ! (k - 1)) in
         line \<noteq> [] \<and> \<not> str_startswith line ''--'' \<longrightarrow>
           \<not> str_contains ''ADD CONSTRAINT IF NOT EXISTS'' line
         \<and> \<not> str_startswith line ''DO $$''
         \<and> \<not> str_contains ''CREATE OR REPLACE FUNCTION'' line)"
  have "all_errors ?lines = []"
  proof (rule all_errors_empty)
    fix k assume "1 \<le> k" "k \<le> length ?lines"
    with a show "line_errors ?lines k (?lines ! (k - 1)) = []"
      by (auto simp: line_errors_def Let_def)
  qed
  moreover have "all_warnings ?lines = []"
  proof (rule all_warnings_empty)
    fix k assume "1 \<le> k" "k \<le> length ?lines"
    with a show "line_warnings ?lines k (?lines ! (k - 1)) = []"
      by (auto simp: line_warnings_def Let_def)
  qed
  ultimately show "validate_sql_syntax T = Some ([], [])"
    by (simp add: validate_sql_syntax_eq)
next
  let ?lines = "str_split T (CHR 0x0A)"
  assume b: "\<not> str_contains ''ADD CONSTRAINT IF NOT EXISTS'' T \<and> \<not> str_contains ''DO $$'' T
        \<and> \<not> str_contains ''CREATE OR REPLACE FUNCTION'' T"
  have none: "\<not> sublist p (str_strip (?lines ! (k - 1)))"
    if "1 \<le> k" "k \<le> length ?lines" "\<not> str_contains p T" for k p
  proof
    assume "sublist p (str_strip (?lines ! (k - 1)))"
    from this stripped_line_sublist [OF that(1,2)] have "sublist p T"
      by (rule sublist_order.order.trans)
    with that(3) show False by (simp add: str_contains_sublist)
  qed
  have "all_errors ?lines = []"
  proof (rule all_errors_empty)
    fix k assume k: "1 \<le> k" "k \<le> length ?lines"
    from b none [OF k] have "\<not> sublist ''ADD CONSTRAINT IF NOT EXISTS'' (str_strip (?lines ! (k - 1)))"
      and "\<not> sublist ''DO $$'' (str_strip (?lines ! (k - 1)))"
      by blast+
    then have "\<not> str_contains ''ADD CONSTRAINT IF NOT EXISTS'' (str_strip (?lines ! (k - 1)))"
      and "\<not> str_startswith (str_strip (?lines ! (k - 1))) ''DO $$''"
      by (auto simp: str_contains_sublist str_startswith_prefix)
    then show "line_errors ?lines k (?lines ! (k - 1)) = []"
      by (simp add: line_errors_def Let_def)
  qed
  moreover have "all_warnings ?lines = []"
  proof (rule all_warnings_empty)
    fix k assume k: "1 \<le> k" "k \<le> length ?lines"
    from b none [OF k] have "\<not> sublist ''CREATE OR REPLACE FUNCTION'' (str_strip (?lines ! (k - 1)))"
      by blast
    then have "\<not> str_contains ''CREATE OR REPLACE FUNCTION'' (str_strip (?lines ! (k - 1)))"
      by (simp add: str_contains_sublist)
    then show "line_warnings ?lines k (?lines ! (k - 1)) = []"
      by (simp add: line_warnings_def Let_def)
  qed
  ultimately show "validate_sql_syntax T = Some ([], [])"
    by (simp add: validate_sql_syntax_eq)
next
  show "validate_sql_syntax '''' = Some ([], [])"
    by code_simp
qed

theorem no_trigger_no_findings_witness:
  "validate_sql_syntax ''-- ADD CONSTRAINT IF NOT EXISTS\<newline>   \<newline>SELECT 1;\<newline>  -- DO $$'' = Some ([], [])
   \<and> str_contains ''ADD CONSTRAINT IF NOT EXISTS''
        ''-- ADD CONSTRAINT IF NOT EXISTS\<newline>   \<newline>SELECT 1;\<newline>  -- DO $$''
   \<and> validate_sql_syntax ''SELECT 1;\<newline>select 2;'' = Some ([], [])"
proof -
  let ?T = "''-- ADD CONSTRAINT IF NOT EXISTS\<newline>   \<newline>SELECT 1;\<newline>  -- DO $$''"
  let ?P = "\<lambda>k. let line = str_strip (str_split ?T (CHR 0x0A) ! (k - 1)) in
         line \<noteq> [] \<and> \<not> str_startswith line ''--'' \<longrightarrow>
           \<not> str_contains ''ADD CONSTRAINT IF NOT EXISTS'' line
         \<and> \<not> str_startswith line ''DO $$''
         \<and> \<not> str_contains ''CREATE OR REPLACE FUNCTION'' line"
  have len: "length (str_split ?T (CHR 0x0A)) = 4"
    by code_simp
  have p1: "?P 1" by code_simp
  have p2: "?P 2" by code_simp
  have p3: "?P 3" by code_simp
  have p4: "?P 4" by code_simp
  have h: "\<forall>k. 1 \<le> k \<and> k \<le> length (str_split ?T (CHR 0x0A)) \<longrightarrow> ?P k"
  proof (intro allI impI)
    fix k :: nat assume "1 \<le> k \<and> k \<le> length (str_split ?T (CHR 0x0A))"
    with len have "k = 1 \<or> k = 2 \<or> k = 3 \<or> k = 4" by auto
    with p1 p2 p3 p4 show "?P k" by blast
  qed
  have occurs: "str_contains ''ADD CONSTRAINT IF NOT EXISTS'' ?T"
    by code_simp
  have absent: "\<not> str_contains ''ADD CONSTRAINT IF NOT EXISTS'' ''SELECT 1;\<newline>select 2;''
        \<and> \<not> str_contains ''DO $$'' ''SELECT 1;\<newline>select 2;''
        \<and> \<not> str_contains ''CREATE OR REPLACE FUNCTION'' ''SELECT 1;\<newline>select 2;''"
    by code_simp
  from no_trigger_no_findings [of ?T] h
  have "validate_sql_syntax ?T = Some ([], [])" by blast
  moreover from no_trigger_no_findings [of "''SELECT 1;\<newline>select 2;''"] absent
  have "validate_sql_syntax ''SELECT 1;\<newline>select 2;'' = Some ([], [])" by blast
  ultimately show ?thesis using occurs by blast
qed

section \<open>Line numbers of findings\<close>

text \<open>
  Claim C6. The number embedded in a finding is the position, counted from 1, of the line
  that triggered it in the text split at its newline characters: that line exists, is a
  checked line and meets the condition of the finding's check. Blank lines and comment
  lines count in the position.
\<close>

theorem finding_line_numbers:
  assumes "validate_sql_syntax T = Some (errors, warnings)"
    and "lines = str_split T (CHR 0x0A)"
  shows "(\<forall>e \<in> set errors.
            let n = line_number_of e; line = str_strip (lines ! (n - 1)) in
            1 \<le> n \<and> n \<le> length lines \<and> line \<noteq> [] \<and> \<not> str_startswith line ''--''
            \<and> ((e = constraint_error n \<and> str_contains ''ADD CONSTRAINT IF NOT EXISTS'' line)
               \<or> (e = do_block_error n \<and> str_startswith line ''DO $$''
                    \<and> \<not> str_endswith line ''$$;'')))
       \<and> (\<forall>w \<in> set warnings.
            let n = line_number_of w; line = str_strip (lines ! (n - 1)) in
            1 \<le> n \<and> n \<le> length lines \<and> line \<noteq> [] \<and> \<not> str_startswith line ''--''
            \<and> w = function_warning n \<and> str_contains ''CREATE OR REPLACE FUNCTION'' line
            \<and> \<not> str_contains ''$$'' (concat (take 11 (drop (n - 1) lines))))"
proof (intro conjI ballI)
  fix e assume "e \<in> set errors"
  with assms have "e \<in> set (all_errors lines)"
    by (simp add: validate_sql_syntax_eq)
  then obtain i where i: "1 \<le> i" "i \<le> length lines"
    and e: "e \<in> set (line_errors lines i (lines ! (i - 1)))"
    unfolding in_all_errors by blast
  from in_line_errors [OF e] have "e = constraint_error i \<or> e = do_block_error i"
    by blast
  then have n: "line_number_of e = i"
    by (auto simp: line_number_of_constraint_error line_number_of_do_block_error)
  from i in_line_errors [OF e]
  show "let n = line_number_of e; line = str_strip (lines ! (n - 1)) in
            1 \<le> n \<and> n \<le> length lines \<and> line \<noteq> [] \<and> \<not> str_startswith line ''--''
            \<and> ((e = constraint_error n \<and> str_contains ''ADD CONSTRAINT IF NOT EXISTS'' line)
               \<or> (e = do_block_error n \<and> str_startswith line ''DO $$''
                    \<and> \<not> str_endswith line ''$$;''))"
    unfolding Let_def n by blast
next
  fix w assume "w \<in> set warnings"
  with assms have "w \<in> set (all_warnings lines)"
    by (simp add: validate_sql_syntax_eq)
  then obtain i where i: "1 \<le> i" "i \<le> length lines"
    and w: "w \<in> set (line_warnings lines i (lines ! (i - 1)))"
    unfolding in_all_warnings by blast
  from in_line_warnings [OF w] have n: "line_number_of w = i"
    by (simp add: line_number_of_function_warning)
  from in_line_warnings [OF w] py_slice_window [OF i(1), of lines]
  have "\<not> str_contains ''$$'' (concat (take 11 (drop (i - 1) lines)))"
    by simp
  with i in_line_warnings [OF w]
  show "let n = line_number_of w; line = str_strip (lines ! (n - 1)) in
            1 \<le> n \<and> n \<le> length lines \<and> line \<noteq> [] \<and> \<not> str_startswith line ''--''
            \<and> w = function_warning n \<and> str_contains ''CREATE OR REPLACE FUNCTION'' line
            \<and> \<not> str_contains ''$$'' (concat (take 11 (drop (n - 1) lines)))"
    unfolding Let_def n by blast
qed

theorem finding_line_numbers_witness:
  "validate_sql_syntax
      ''\<newline>-- note\<newline>ALTER TABLE t ADD CONSTRAINT IF NOT EXISTS c;\<newline>   \<newline>CREATE OR REPLACE FUNCTION f()''
     = Some ([''Line 3: '' @ [CHR 0x27] @ ''ADD CONSTRAINT IF NOT EXISTS'' @ [CHR 0x27]
                @ '' is not valid PostgreSQL syntax''],
             [''Line 5: Function may be missing proper delimiters''])
   \<and> line_number_of (''Line 3: '' @ [CHR 0x27] @ ''ADD CONSTRAINT IF NOT EXISTS'' @ [CHR 0x27]
                @ '' is not valid PostgreSQL syntax'') = 3
   \<and> str_split
        ''\<newline>-- note\<newline>ALTER TABLE t ADD CONSTRAINT IF NOT EXISTS c;\<newline>   \<newline>CREATE OR REPLACE FUNCTION f()''
        (CHR 0x0A) ! (3 - 1) = ''ALTER TABLE t ADD CONSTRAINT IF NOT EXISTS c;''
   \<and> line_number_of ''Line 5: Function may be missing proper delimiters'' = 5
   \<and> str_split
        ''\<newline>-- note\<newline>ALTER TABLE t ADD CONSTRAINT IF NOT EXISTS c;\<newline>   \<newline>CREATE OR REPLACE FUNCTION f()''
        (CHR 0x0A) ! (5 - 1) = ''CREATE OR REPLACE FUNCTION f()''"
proof -
  let ?T = "''\<newline>-- note\<newline>ALTER TABLE t ADD CONSTRAINT IF NOT EXISTS c;\<newline>   \<newline>CREATE OR REPLACE FUNCTION f()''"
  let ?e = "''Line 3: '' @ [CHR 0x27] @ ''ADD CONSTRAINT IF NOT EXISTS'' @ [CHR 0x27]
                @ '' is not valid PostgreSQL syntax''"
  let ?w = "''Line 5: Function may be missing proper delimiters''"
  have run: "validate_sql_syntax ?T = Some ([?e], [?w])"
    by code_simp
  have l3: "str_split ?T (CHR 0x0A) ! (3 - 1) = ''ALTER TABLE t ADD CONSTRAINT IF NOT EXISTS c;''"
    by code_simp
  have l5: "str_split ?T (CHR 0x0A) ! (5 - 1) = ''CREATE OR REPLACE FUNCTION f()''"
    by code_simp
  have n3: "line_number_of ?e = 3" by code_simp
  have n5: "line_number_of ?w = 5" by code_simp
  from finding_line_numbers [OF run refl]
  have "1 \<le> line_number_of ?e" and "1 \<le> line_number_of ?w"
    by (simp_all add: Let_def)
  with run l3 l5 n3 n5 show ?thesis by blast
qed

section \<open>The exit status\<close>

text \<open>
  Claim C7. The exit status is 0 exactly when the validation gave no error, whatever the
  warnings, and 1 when it gave an error. It is 1 as well when the file cannot be opened:
  for a missing file \<open>main\<close> prints one line, which no validation report contains, and
  returns 1 without validating; any other exception leaves \<open>main\<close> uncaught with nothing
  printed, which ends the process with status 1.
\<close>

theorem exit_status_policy:
  "(\<exists>errors warnings. validate_sql_syntax T = Some (errors, warnings)
      \<and> (exit_code (Content T) = Some 0 \<longleftrightarrow> errors = [])
      \<and> (errors \<noteq> [] \<longrightarrow> exit_code (Content T) = Some 1)
      \<and> (\<exists>out. main (Content T) = Some (report T errors warnings, out)))
   \<and> exit_code FileNotFoundError = Some 1
   \<and> main FileNotFoundError = Some ([cross_mark @ '' SQL file not found''], Returned 1)
   \<and> cross_mark @ '' SQL file not found'' \<notin> set (report T errors' warnings')
   \<and> exit_code OtherException = Some 1
   \<and> main OtherException = Some ([], Uncaught)"
  by (simp add: validate_sql_syntax_eq exit_code_Content main_Content not_found_not_in_report)
     (simp add: exit_code_def main_def exit_status_def)

theorem exit_status_policy_witness:
  "validate_sql_syntax ''DO $$\<newline>CREATE OR REPLACE FUNCTION f()''
      = Some ([''Line 1: DO block not properly closed''],
              [''Line 2: Function may be missing proper delimiters''])
   \<and> exit_code (Content ''DO $$\<newline>CREATE OR REPLACE FUNCTION f()'') = Some 1
   \<and> validate_sql_syntax ''CREATE OR REPLACE FUNCTION f()''
      = Some ([], [''Line 1: Function may be missing proper delimiters''])
   \<and> exit_code (Content ''CREATE OR REPLACE FUNCTION f()'') = Some 0"
proof -
  let ?T = "''DO $$\<newline>CREATE OR REPLACE FUNCTION f()''"
  let ?U = "''CREATE OR REPLACE FUNCTION f()''"
  have t: "validate_sql_syntax ?T
      = Some ([''Line 1: DO block not properly closed''],
              [''Line 2: Function may be missing proper delimiters''])"
    by code_simp
  have u: "validate_sql_syntax ?U = Some ([], [''Line 1: Function may be missing proper delimiters''])"
    by code_simp
  from exit_status_policy [of ?T] t have "exit_code (Content ?T) = Some 1"
    by auto
  moreover from exit_status_policy [of ?U] u have "exit_code (Content ?U) = Some 0"
    by auto
  ultimately show ?thesis using t u by blast
qed

section \<open>The statement count\<close>

text \<open>
  Claim C8. The line of the report before the last one gives the number of pieces of the
  raw text split at every semicolon, which is the number of semicolons plus one: 2 for
  \<open>SELECT 1;\<close>, whose pieces are \<open>SELECT 1\<close> and the empty string, and 1 for the empty
  text.
\<close>

theorem statement_count_reported:
  "(\<exists>printed out. main (Content T) = Some (printed, out)
      \<and> last (butlast printed) =
          [CHR 0x0A] @ bar_chart @ '' File contains '' @ str_nat (length (str_split T (CHR '';'')))
            @ '' SQL statements'')
   \<and> length (str_split T (CHR '';'')) = count_list T (CHR '';'') + 1
   \<and> str_split ''SELECT 1;'' (CHR '';'') = [''SELECT 1'', '''']
   \<and> (\<exists>printed out. main (Content ''SELECT 1;'') = Some (printed, out)
      \<and> last (butlast printed) = [CHR 0x0A] @ bar_chart @ '' File contains 2 SQL statements'')
   \<and> str_split '''' (CHR '';'') = ['''']
   \<and> (\<exists>printed out. main (Content '''') = Some (printed, out)
      \<and> last (butlast printed) = [CHR 0x0A] @ bar_chart @ '' File contains 1 SQL statements'')"
proof -
  have s1: "str_split ''SELECT 1;'' (CHR '';'') = [''SELECT 1'', '''']"
    by (simp add: str_split_def)
  have s2: "str_split '''' (CHR '';'') = ['''']"
    by (simp add: str_split_def)
  have general: "\<exists>printed out. main (Content T) = Some (printed, out)
      \<and> last (butlast printed) =
          [CHR 0x0A] @ bar_chart @ '' File contains '' @ str_nat (length (str_split T (CHR '';'')))
            @ '' SQL statements''"
    by (simp add: main_Content last_butlast_report)
  have scenario1: "\<exists>printed out. main (Content ''SELECT 1;'') = Some (printed, out)
      \<and> last (butlast printed) = [CHR 0x0A] @ bar_chart @ '' File contains 2 SQL statements''"
    by (simp add: main_Content last_butlast_report s1 str_nat_2)
  have scenario6: "\<exists>printed out. main (Content '''') = Some (printed, out)
      \<and> last (butlast printed) = [CHR 0x0A] @ bar_chart @ '' File contains 1 SQL statements''"
    by (simp add: main_Content last_butlast_report s2 str_nat_1)
  from general str_split_length [of T "CHR '';''"] s1 scenario1 s2 scenario6
  show ?thesis by blast
qed

theorem statement_count_reported_witness:
  "\<exists>printed out. main (Content ''a;b;c'') = Some (printed, out)
      \<and> last (butlast printed) = [CHR 0x0A] @ bar_chart @ '' File contains 3 SQL statements''"
proof -
  have "str_nat (length (str_split ''a;b;c'' (CHR '';''))) = ''3''"
    by code_simp
  with statement_count_reported [of "''a;b;c''"] show ?thesis
    by simp
qed

section \<open>Case sensitivity\<close>

text \<open>
  Claim C9. The three checks compare characters exactly. On a checked line, the lower
  case clause \<open>add constraint if not exists\<close> without the upper case one gives no
  constraint error, a stripped line that begins with \<open>do $$\<close> gives no DO block error
  whatever follows it, and \<open>create or replace function\<close> without the upper case text
  gives no delimiter warning.
\<close>

theorem patterns_case_sensitive:
  assumes "validate_sql_syntax T = Some (errors, warnings)"
    and "lines = str_split T (CHR 0x0A)" and "1 \<le> i" and "i \<le> length lines"
    and "line = str_strip (lines ! (i - 1))"
    and "line \<noteq> []" and "\<not> str_startswith line ''--''"
  shows "(str_contains ''add constraint if not exists'' line
            \<and> \<not> str_contains ''ADD CONSTRAINT IF NOT EXISTS'' line
          \<longrightarrow> constraint_error i \<notin> set errors)
       \<and> (str_startswith line ''do $$'' \<and> \<not> str_startswith line ''DO $$''
          \<longrightarrow> do_block_error i \<notin> set errors)
       \<and> (str_contains ''create or replace function'' line
            \<and> \<not> str_contains ''CREATE OR REPLACE FUNCTION'' line
          \<longrightarrow> function_warning i \<notin> set warnings)"
proof -
  from assms(1,2) have "errors = all_errors lines" and "warnings = all_warnings lines"
    by (simp_all add: validate_sql_syntax_eq)
  with assms(5) show ?thesis
    by (simp add: constraint_error_in_all_errors do_block_error_in_all_errors
        function_warning_in_all_warnings)
qed

theorem patterns_case_sensitive_witness:
  "validate_sql_syntax
      ''do $$ add constraint if not exists create or replace function\<newline>DO $$''
     = Some ([''Line 2: DO block not properly closed''], [])
   \<and> str_contains ''add constraint if not exists''
        ''do $$ add constraint if not exists create or replace function''
   \<and> str_startswith ''do $$ add constraint if not exists create or replace function'' ''do $$''
   \<and> str_contains ''create or replace function''
        ''do $$ add constraint if not exists create or replace function''
   \<and> constraint_error 1 \<notin> set [''Line 2: DO block not properly closed'']
   \<and> do_block_error 1 \<notin> set [''Line 2: DO block not properly closed'']
   \<and> function_warning 1 \<notin> set ([] :: string list)"
proof -
  let ?l = "''do $$ add constraint if not exists create or replace function''"
  let ?T = "''do $$ add constraint if not exists create or replace function\<newline>DO $$''"
  have run: "validate_sql_syntax ?T = Some ([''Line 2: DO block not properly closed''], [])"
    by code_simp
  have h2: "[?l, ''DO $$''] = str_split ?T (CHR 0x0A)"
    by code_simp
  have h3: "(1::nat) \<le> 1" and h4: "1 \<le> length [?l, ''DO $$'']"
    by simp_all
  have h5: "?l = str_strip ([?l, ''DO $$''] ! (1 - 1))"
    by code_simp
  have h6: "?l \<noteq> []" by simp
  have h7: "\<not> str_startswith ?l ''--''"
    by code_simp
  have c1: "str_contains ''add constraint if not exists'' ?l
      \<and> \<not> str_contains ''ADD CONSTRAINT IF NOT EXISTS'' ?l"
    by code_simp
  have c2: "str_startswith ?l ''do $$'' \<and> \<not> str_startswith ?l ''DO $$''"
    by code_simp
  have c3: "str_contains ''create or replace function'' ?l
      \<and> \<not> str_contains ''CREATE OR REPLACE FUNCTION'' ?l"
    by code_simp
  from patterns_case_sensitive [OF run h2 h3 h4 h5 h6 h7] c1 c2 c3 run
  show ?thesis by blast
qed

section \<open>Termination\<close>

text \<open>
  Claim C10. \<open>validate_sql_syntax\<close> returns for every input text: the \<open>while\<close> loop of the
  DO block check returns from every state (its index grows in each round and the rounds
  stop at the number of lines), and so does the whole validation, whatever the number of
  \<open>DO $$\<close> openers in the document.
\<close>

theorem validate_sql_syntax_total:
  "(\<exists>r. do_block_while lines j block_content = Some r)
   \<and> (\<exists>errors warnings. validate_sql_syntax T = Some (errors, warnings))"
  using do_block_while_result [of lines j block_content]
  by (auto simp: validate_sql_syntax_eq)

theorem validate_sql_syntax_total_witness:
  "(\<exists>r. do_block_while [''DO $$'', ''END $$;'', ''''] 1 [] = Some r)
   \<and> (\<exists>errors warnings.
         validate_sql_syntax (''DO $$'' @ [CHR 0x0A] @ ''DO $$'') = Some (errors, warnings))"
  using validate_sql_syntax_total
    [of "[''DO $$'', ''END $$;'', '''']" 1 "[]" "''DO $$'' @ [CHR 0x0A] @ ''DO $$''"]
  by simp

end
